theory Spec2Isabelle
  imports Main
begin

section \<open>The code model of \<open>code-parser.ts\<close>\<close>

text \<open>
  The interfaces of \<open>src/code-parsing/common/code-parser.ts\<close> that the parser facade
  touches. A TypeScript interface of plain fields is a record; a union of string
  literals is a datatype with one constructor per literal. \<open>Type\<close> refers to itself
  through \<open>superClasses\<close> and \<open>interfaces\<close>, so it is a recursive datatype with the
  source's field names as selectors. Values of a datatype are finite trees: a cyclic
  object graph, which JavaScript can build, has no counterpart here, and equality is
  structural (two arrays with equal elements are the same list).
\<close>

record Package =
  name :: string

datatype Visibility = Public | Private | Protected | Default

record Modifiers =
  isStatic :: bool
  isFinal :: bool
  isAbstract :: bool
  visibility :: Visibility

datatype TypeKind = Class | Interface | Enum | Annotation

datatype Type =
  Type (package: Package) (name: string) (modifiers: Modifiers) (type: TypeKind)
       (superClasses: "Type list") (interfaces: "Type list")

record Import =
  "value" :: string

record ParsedCodeFile =
  "imports" :: "Import list"
  types :: "Type list"

section \<open>The language handler\<close>

text \<open>
  \<open>LanguageHandler\<close> is an interface of two methods, implemented outside this file.
  A method of an arbitrary object may read and change state of its own and may throw,
  so each method is a function from the code and the state \<open>'s\<close> the handler lives in
  to an outcome and the state it leaves: \<open>Inl e\<close> when it throws \<open>e\<close>, \<open>Inr xs\<close> when
  it returns \<open>xs\<close>. The handler's state and the values it throws are type parameters:
  the facade knows nothing about either. A call that never returns is not modelled.
\<close>

record ('s, 'e) LanguageHandler =
  parseImports :: "string \<Rightarrow> 's \<Rightarrow> ('e + Import list) \<times> 's"
  parseTypes :: "string \<Rightarrow> 's \<Rightarrow> ('e + Type list) \<times> 's"

section \<open>The parser facade\<close>

text \<open>
  \<open>class CodeParser\<close> has one field, the constructor parameter property
  \<open>private readonly languageHandler\<close>. The object is passed to its method as \<open>this\<close>
  and handed back next to the result, so that what a call does to the object is part of
  what the method returns. The field is private and readonly, so no code outside the
  class assigns it: the handler's methods work on the handler's state \<open>'s\<close>, which
  does not contain the parser object.
\<close>

record ('s, 'e) CodeParser =
  languageHandler :: "('s, 'e) LanguageHandler"

definition CodeParser_constructor :: "('s, 'e) LanguageHandler \<Rightarrow> ('s, 'e) CodeParser" where
  "CodeParser_constructor languageHandler' = \<lparr>languageHandler = languageHandler'\<rparr>"

text \<open>
  \<^verbatim>\<open>
  parseCode(code: string): ParsedCodeFile {
    const imports: Import[] = this.languageHandler.parseImports(code);
    const types: Type[] = this.languageHandler.parseTypes(code);
    return { imports, types };
  }
  \<close>
  There is no \<open>try\<close> in the method: a throw of either call leaves the method at once
  with the thrown value, in the state the handler had reached. The locals \<open>imports\<close>
  and \<open>types\<close> carry a prime, as the field selectors have their names.
\<close>

definition parseCode ::
  "('s, 'e) CodeParser \<Rightarrow> string \<Rightarrow> 's \<Rightarrow> ('e + ParsedCodeFile) \<times> ('s, 'e) CodeParser \<times> 's" where
  "parseCode this code s =
     (case parseImports (languageHandler this) code s of
        (Inl e, s1) \<Rightarrow> (Inl e, this, s1)
      | (Inr imports', s1) \<Rightarrow>
          (case parseTypes (languageHandler this) code s1 of
             (Inl e, s2) \<Rightarrow> (Inl e, this, s2)
           | (Inr types', s2) \<Rightarrow> (Inr \<lparr>imports = imports', types = types'\<rparr>, this, s2)))"

section \<open>Observing the facade\<close>

text \<open>
  What the facade does to its handler is seen the way a test sees it: through a spy. The
  spy wraps any handler, forwards each call with the argument it got, and appends the
  call to a log kept next to the handler's own state.
\<close>

datatype Call = ParseImportsCall string | ParseTypesCall string

fun isParseImportsCall :: "Call \<Rightarrow> bool" where
  "isParseImportsCall (ParseImportsCall c) = True"
| "isParseImportsCall (ParseTypesCall c) = False"

definition spy :: "('s, 'e) LanguageHandler \<Rightarrow> ('s \<times> Call list, 'e) LanguageHandler" where
  "spy h =
     \<lparr>parseImports = (\<lambda>code (s, calls).
        case parseImports h code s of (r, s') \<Rightarrow> (r, s', calls @ [ParseImportsCall code])),
      parseTypes = (\<lambda>code (s, calls).
        case parseTypes h code s of (r, s') \<Rightarrow> (r, s', calls @ [ParseTypesCall code]))\<rparr>"

text \<open>The calls a spy on \<open>h\<close> has logged when one \<open>parseCode\<close> is over.\<close>

definition spiedCalls :: "('s, 'e) LanguageHandler \<Rightarrow> string \<Rightarrow> 's \<Rightarrow> Call list" where
  "spiedCalls h code s =
     snd (snd (snd (parseCode (CodeParser_constructor (spy h)) code (s, []))))"

text \<open>
  A caller that invokes \<open>parseCode\<close> on one parser object for each text in turn,
  keeping every outcome, and going on after a throw.
\<close>

fun parseCodeAll ::
  "('s, 'e) CodeParser \<Rightarrow> string list \<Rightarrow> 's \<Rightarrow>
     ('e + ParsedCodeFile) list \<times> ('s, 'e) CodeParser \<times> 's" where
  "parseCodeAll this [] s = ([], this, s)"
| "parseCodeAll this (code # codes) s =
     (case parseCode this code s of
        (r, this', s') \<Rightarrow>
          (case parseCodeAll this' codes s' of
             (rs, this'', s'') \<Rightarrow> (r # rs, this'', s'')))"

text \<open>
  A handler is deterministic when the outcome of each method depends on the code alone,
  not on the state the handler is in; it is effect free when no call changes the state.
\<close>

definition deterministic :: "('s, 'e) LanguageHandler \<Rightarrow> bool" where
  "deterministic h \<longleftrightarrow>
     (\<forall>code s s'. fst (parseImports h code s) = fst (parseImports h code s')) \<and>
     (\<forall>code s s'. fst (parseTypes h code s) = fst (parseTypes h code s'))"

definition effectFree :: "('s, 'e) LanguageHandler \<Rightarrow> bool" where
  "effectFree h \<longleftrightarrow>
     (\<forall>code s. snd (parseImports h code s) = s) \<and> (\<forall>code s. snd (parseTypes h code s) = s)"

text \<open>
  The doc comment of \<open>Type.superClasses\<close>: "This is only applicable if the type is a
  class." A type is kind consistent when it is a class or has no super classes.
\<close>

definition kindConsistent :: "Type \<Rightarrow> bool" where
  "kindConsistent t \<longleftrightarrow> type t = Class \<or> superClasses t = []"

subsection \<open>Test doubles\<close>

text \<open>
  A stub handler answers each method from a table and counts the calls it gets in its
  state; a pure stub answers from a table and has no state to change.
\<close>

definition stubHandler ::
  "(string \<Rightarrow> 'e + Import list) \<Rightarrow> (string \<Rightarrow> 'e + Type list) \<Rightarrow> (nat, 'e) LanguageHandler" where
  "stubHandler importsOf typesOf =
     \<lparr>parseImports = (\<lambda>code n. (importsOf code, Suc n)),
      parseTypes = (\<lambda>code n. (typesOf code, Suc n))\<rparr>"

definition pureStubHandler ::
  "(string \<Rightarrow> 'e + Import list) \<Rightarrow> (string \<Rightarrow> 'e + Type list) \<Rightarrow> (unit, 'e) LanguageHandler" where
  "pureStubHandler importsOf typesOf =
     \<lparr>parseImports = (\<lambda>code u. (importsOf code, u)),
      parseTypes = (\<lambda>code u. (typesOf code, u))\<rparr>"

definition plainType :: "TypeKind \<Rightarrow> string \<Rightarrow> Type list \<Rightarrow> Type" where
  "plainType k n supers =
     Type \<lparr>Package.name = ''p''\<rparr> n
       \<lparr>isStatic = False, isFinal = False, isAbstract = False, visibility = Public\<rparr>
       k supers []"

section \<open>How one call unfolds\<close>

lemma parseCode_imports_throw:
  assumes "parseImports (languageHandler p) c s = (Inl e, s1)"
  shows "parseCode p c s = (Inl e, p, s1)"
  using assms by (simp add: parseCode_def)

lemma parseCode_types_throw:
  assumes "parseImports (languageHandler p) c s = (Inr ims, s1)"
    and "parseTypes (languageHandler p) c s1 = (Inl e, s2)"
  shows "parseCode p c s = (Inl e, p, s2)"
  using assms by (simp add: parseCode_def)

lemma parseCode_both_return:
  assumes "parseImports (languageHandler p) c s = (Inr ims, s1)"
    and "parseTypes (languageHandler p) c s1 = (Inr ts, s2)"
  shows "parseCode p c s = (Inr \<lparr>imports = ims, types = ts\<rparr>, p, s2)"
  using assms by (simp add: parseCode_def)

lemma languageHandler_constructor [simp]:
  "languageHandler (CodeParser_constructor h) = h"
  by (simp add: CodeParser_constructor_def)

lemma parseCode_this_unchanged: "fst (snd (parseCode p c s)) = p"
  by (simp add: parseCode_def split: prod.splits sum.splits)

text \<open>
  The three ways through \<open>parseCode\<close>, as a case rule: \<open>parseImports\<close> throws;
  \<open>parseImports\<close> returns and \<open>parseTypes\<close> throws; both return.
\<close>

lemma parseCode_cases [case_names imports_throw types_throw both_return]:
  obtains e s1 where "parseImports (languageHandler p) c s = (Inl e, s1)"
  | ims s1 e s2 where "parseImports (languageHandler p) c s = (Inr ims, s1)"
      and "parseTypes (languageHandler p) c s1 = (Inl e, s2)"
  | ims s1 ts s2 where "parseImports (languageHandler p) c s = (Inr ims, s1)"
      and "parseTypes (languageHandler p) c s1 = (Inr ts, s2)"
proof (cases "parseImports (languageHandler p) c s")
  case (Pair r s1)
  show thesis
  proof (cases r)
    case (Inl e)
    with Pair that(1) show thesis by simp
  next
    case (Inr ims)
    obtain r' s2 where t: "parseTypes (languageHandler p) c s1 = (r', s2)"
      by (cases "parseTypes (languageHandler p) c s1")
    show thesis
    proof (cases r')
      case (Inl e)
      with Pair Inr t that(2) show thesis by simp
    next
      case Inr': (Inr ts)
      with Pair Inr t that(3) show thesis by simp
    qed
  qed
qed

subsection \<open>The spy changes nothing but its log\<close>

lemma spy_parseImports:
  "parseImports (spy h) c (s, calls) =
     (fst (parseImports h c s), snd (parseImports h c s), calls @ [ParseImportsCall c])"
  by (simp add: spy_def split: prod.splits)

lemma spy_parseTypes:
  "parseTypes (spy h) c (s, calls) =
     (fst (parseTypes h c s), snd (parseTypes h c s), calls @ [ParseTypesCall c])"
  by (simp add: spy_def split: prod.splits)

lemma parseCode_spy:
  "parseCode (CodeParser_constructor (spy h)) c (s, calls) =
     (fst (parseCode (CodeParser_constructor h) c s),
      CodeParser_constructor (spy h),
      snd (snd (parseCode (CodeParser_constructor h) c s)),
      calls @ (if isl (fst (parseImports h c s))
               then [ParseImportsCall c]
               else [ParseImportsCall c, ParseTypesCall c]))"
proof (cases "CodeParser_constructor h" c s rule: parseCode_cases)
  case (imports_throw e sa)
  then have i: "parseImports h c s = (Inl e, sa)" by simp
  have "parseImports (languageHandler (CodeParser_constructor (spy h))) c (s, calls) =
          (Inl e, sa, calls @ [ParseImportsCall c])"
    by (simp add: spy_parseImports i)
  from parseCode_imports_throw [OF this] parseCode_imports_throw [OF imports_throw]
  show ?thesis by (simp add: i)
next
  case (types_throw ims sa e sb)
  then have i: "parseImports h c s = (Inr ims, sa)" and t: "parseTypes h c sa = (Inl e, sb)"
    by simp_all
  have si: "parseImports (languageHandler (CodeParser_constructor (spy h))) c (s, calls) =
          (Inr ims, sa, calls @ [ParseImportsCall c])"
    by (simp add: spy_parseImports i)
  have st: "parseTypes (languageHandler (CodeParser_constructor (spy h))) c
              (sa, calls @ [ParseImportsCall c]) =
          (Inl e, sb, (calls @ [ParseImportsCall c]) @ [ParseTypesCall c])"
    by (simp add: spy_parseTypes t)
  from parseCode_types_throw [OF si st] parseCode_types_throw [OF types_throw]
  show ?thesis by (simp add: i)
next
  case (both_return ims sa ts sb)
  then have i: "parseImports h c s = (Inr ims, sa)" and t: "parseTypes h c sa = (Inr ts, sb)"
    by simp_all
  have si: "parseImports (languageHandler (CodeParser_constructor (spy h))) c (s, calls) =
          (Inr ims, sa, calls @ [ParseImportsCall c])"
    by (simp add: spy_parseImports i)
  have st: "parseTypes (languageHandler (CodeParser_constructor (spy h))) c
              (sa, calls @ [ParseImportsCall c]) =
          (Inr ts, sb, (calls @ [ParseImportsCall c]) @ [ParseTypesCall c])"
    by (simp add: spy_parseTypes t)
  from parseCode_both_return [OF si st] parseCode_both_return [OF both_return]
  show ?thesis by (simp add: i)
qed

lemma spiedCalls_eq:
  "spiedCalls h c s =
     (if isl (fst (parseImports h c s))
      then [ParseImportsCall c]
      else [ParseImportsCall c, ParseTypesCall c])"
  by (simp add: spiedCalls_def parseCode_spy)

subsection \<open>Outcome and final state of a call, by components\<close>

lemma parseCode_fst:
  "fst (parseCode p c s) =
     (case fst (parseImports (languageHandler p) c s) of
        Inl e \<Rightarrow> Inl e
      | Inr ims \<Rightarrow>
          (case fst (parseTypes (languageHandler p) c (snd (parseImports (languageHandler p) c s))) of
             Inl e \<Rightarrow> Inl e
           | Inr ts \<Rightarrow> Inr \<lparr>imports = ims, types = ts\<rparr>))"
  by (simp add: parseCode_def split: prod.splits sum.splits)

lemma parseCode_state:
  "snd (snd (parseCode p c s)) =
     (case fst (parseImports (languageHandler p) c s) of
        Inl e \<Rightarrow> snd (parseImports (languageHandler p) c s)
      | Inr ims \<Rightarrow> snd (parseTypes (languageHandler p) c (snd (parseImports (languageHandler p) c s))))"
  by (simp add: parseCode_def split: prod.splits sum.splits)

subsection \<open>Many calls on one object\<close>

lemma parseCodeAll_this_unchanged: "fst (snd (parseCodeAll p cs s)) = p"
proof (induction cs arbitrary: s)
  case Nil
  show ?case by simp
next
  case (Cons c cs)
  obtain r p' s' where step: "parseCode p c s = (r, p', s')"
    by (cases "parseCode p c s") auto
  with parseCode_this_unchanged [of p c s] have same: "p' = p" by simp
  obtain rs pb sb where rest: "parseCodeAll p cs s' = (rs, pb, sb)"
    by (cases "parseCodeAll p cs s'") auto
  have whole: "parseCodeAll p (c # cs) s = (r # rs, pb, sb)"
    by (simp add: step same rest)
  from Cons.IH [of s'] rest have "pb = p" by simp
  then show ?case unfolding whole by simp
qed

lemma parseCodeAll_spy_calls:
  "filter isParseImportsCall
     (snd (snd (snd (parseCodeAll (CodeParser_constructor (spy h)) cs (s, calls))))) =
   filter isParseImportsCall calls @ map ParseImportsCall cs"
proof (induction cs arbitrary: s calls)
  case Nil
  show ?case by simp
next
  case (Cons c cs)
  define calls' where "calls' = calls @ (if isl (fst (parseImports h c s))
                         then [ParseImportsCall c]
                         else [ParseImportsCall c, ParseTypesCall c])"
  define s' where "s' = snd (snd (parseCode (CodeParser_constructor h) c s))"
  define r where "r = fst (parseCode (CodeParser_constructor h) c s)"
  have step: "parseCode (CodeParser_constructor (spy h)) c (s, calls) =
                (r, CodeParser_constructor (spy h), s', calls')"
    by (simp add: parseCode_spy calls'_def s'_def r_def)
  obtain rs p sb callsb where
    rest: "parseCodeAll (CodeParser_constructor (spy h)) cs (s', calls') = (rs, p, sb, callsb)"
    by (cases "parseCodeAll (CodeParser_constructor (spy h)) cs (s', calls')") auto
  have whole: "parseCodeAll (CodeParser_constructor (spy h)) (c # cs) (s, calls) =
                 (r # rs, p, sb, callsb)"
    by (simp add: step rest)
  have "filter isParseImportsCall calls' = filter isParseImportsCall calls @ [ParseImportsCall c]"
    by (simp add: calls'_def)
  moreover from Cons.IH [of s' calls'] rest
  have "filter isParseImportsCall callsb =
          filter isParseImportsCall calls' @ map ParseImportsCall cs"
    by simp
  ultimately show ?case unfolding whole by simp
qed

section \<open>Results of a call\<close>

text \<open>
  C1. When the handler's \<open>parseImports\<close> returns \<open>ims\<close> and its \<open>parseTypes\<close>, called
  next, returns \<open>ts\<close>, \<open>parseCode\<close> on a parser constructed with that handler returns
  the record of exactly these two sequences, nothing added, dropped or reordered.
\<close>

theorem parseCode_returns_handler_results:
  assumes "parseImports h c s = (Inr ims, sa)"
    and "parseTypes h c sa = (Inr ts, sb)"
  shows "fst (parseCode (CodeParser_constructor h) c s) = Inr \<lparr>imports = ims, types = ts\<rparr>"
  using assms by (simp add: parseCode_def)

theorem parseCode_returns_handler_results_witness:
  "parseImports
     (stubHandler (\<lambda>c. Inr [\<lparr>value = c\<rparr>]) (\<lambda>c. Inr [plainType Class c []])
        :: (nat, string) LanguageHandler) ''A'' 0 = (Inr [\<lparr>value = ''A''\<rparr>], Suc 0) \<and>
   parseTypes
     (stubHandler (\<lambda>c. Inr [\<lparr>value = c\<rparr>]) (\<lambda>c. Inr [plainType Class c []])
        :: (nat, string) LanguageHandler) ''A'' (Suc 0) =
       (Inr [plainType Class ''A'' []], Suc (Suc 0)) \<and>
   fst (parseCode (CodeParser_constructor
     (stubHandler (\<lambda>c. Inr [\<lparr>value = c\<rparr>]) (\<lambda>c. Inr [plainType Class c []])
        :: (nat, string) LanguageHandler)) ''A'' 0) =
     Inr \<lparr>imports = [\<lparr>value = ''A''\<rparr>], types = [plainType Class ''A'' []]\<rparr>"
proof -
  let ?h = "stubHandler (\<lambda>c. Inr [\<lparr>value = c\<rparr>]) (\<lambda>c. Inr [plainType Class c []])
              :: (nat, string) LanguageHandler"
  have i: "parseImports ?h ''A'' 0 = (Inr [\<lparr>value = ''A''\<rparr>], Suc 0)"
    by (simp add: stubHandler_def)
  have t: "parseTypes ?h ''A'' (Suc 0) = (Inr [plainType Class ''A'' []], Suc (Suc 0))"
    by (simp add: stubHandler_def)
  from i t parseCode_returns_handler_results [OF i t] show ?thesis by simp
qed

text \<open>
  C7. For a stub handler whose \<open>parseImports\<close> answers \<open>"X"\<close> with the one import
  \<open>a.b.C\<close> and whose \<open>parseTypes\<close> answers \<open>"X"\<close> with no type, \<open>parseCode "X"\<close> returns
  exactly the record of that one import and no type.
\<close>

theorem parseCode_round_trip:
  assumes "\<And>s'. fst (parseImports h ''X'' s') = Inr [\<lparr>value = ''a.b.C''\<rparr>]"
    and "\<And>s'. fst (parseTypes h ''X'' s') = Inr []"
  shows "fst (parseCode (CodeParser_constructor h) ''X'' s) =
           Inr \<lparr>imports = [\<lparr>value = ''a.b.C''\<rparr>], types = []\<rparr>"
  by (simp add: parseCode_fst assms)

theorem parseCode_round_trip_witness:
  "fst (parseCode (CodeParser_constructor
     (stubHandler (\<lambda>c. if c = ''X'' then Inr [\<lparr>value = ''a.b.C''\<rparr>] else Inl ''unexpected'')
                  (\<lambda>c. if c = ''X'' then Inr [] else Inl ''unexpected'')
        :: (nat, string) LanguageHandler)) ''X'' 0) =
     Inr \<lparr>imports = [\<lparr>value = ''a.b.C''\<rparr>], types = []\<rparr>"
proof -
  let ?h = "stubHandler (\<lambda>c. if c = ''X'' then Inr [\<lparr>value = ''a.b.C''\<rparr>] else Inl ''unexpected'')
                        (\<lambda>c. if c = ''X'' then Inr [] else Inl ''unexpected'')
              :: (nat, string) LanguageHandler"
  have i: "\<And>s'. fst (parseImports ?h ''X'' s') = Inr [\<lparr>value = ''a.b.C''\<rparr>]"
    by (simp add: stubHandler_def)
  have t: "\<And>s'. fst (parseTypes ?h ''X'' s') = Inr []"
    by (simp add: stubHandler_def)
  from parseCode_round_trip [OF i t] show ?thesis .
qed

text \<open>
  C8. For a handler that answers the empty text with no import and no type,
  \<open>parseCode ""\<close> returns the record of two empty sequences: the empty text goes to
  the handler like any other.
\<close>

theorem parseCode_empty_input:
  assumes "\<And>s'. fst (parseImports h '''' s') = Inr []"
    and "\<And>s'. fst (parseTypes h '''' s') = Inr []"
  shows "fst (parseCode (CodeParser_constructor h) '''' s) = Inr \<lparr>imports = [], types = []\<rparr>"
  by (simp add: parseCode_fst assms)

theorem parseCode_empty_input_witness:
  "fst (parseCode (CodeParser_constructor
     (stubHandler (\<lambda>c. Inr (map (\<lambda>x. \<lparr>value = [x]\<rparr>) c))
                  (\<lambda>c. Inr (map (\<lambda>x. plainType Enum [x] []) c))
        :: (nat, string) LanguageHandler)) '''' 7) =
     Inr \<lparr>imports = [], types = []\<rparr>"
proof -
  let ?h = "stubHandler (\<lambda>c. Inr (map (\<lambda>x. \<lparr>value = [x]\<rparr>) c))
                        (\<lambda>c. Inr (map (\<lambda>x. plainType Enum [x] []) c))
              :: (nat, string) LanguageHandler"
  have i: "\<And>s'. fst (parseImports ?h '''' s') = Inr []"
    by (simp add: stubHandler_def)
  have t: "\<And>s'. fst (parseTypes ?h '''' s') = Inr []"
    by (simp add: stubHandler_def)
  from parseCode_empty_input [OF i t] show ?thesis .
qed

text \<open>
  C6. For a handler that answers the text with two types, a class then an interface,
  every record \<open>parseCode\<close> returns for that text has exactly these two types in that
  order, the class at index 0 and the interface at index 1; and it does return that
  record whenever \<open>parseImports\<close> returns.
\<close>

theorem parseCode_preserves_type_order:
  assumes "\<And>s'. fst (parseTypes h c s') = Inr [t0, t1]"
    and "type t0 = Class" and "type t1 = Interface"
  shows "(fst (parseCode (CodeParser_constructor h) c s) = Inr pf \<longrightarrow>
            types pf = [t0, t1] \<and> type (types pf ! 0) = Class \<and> type (types pf ! 1) = Interface) \<and>
         (fst (parseImports h c s) = Inr ims \<longrightarrow>
            fst (parseCode (CodeParser_constructor h) c s) = Inr \<lparr>imports = ims, types = [t0, t1]\<rparr>)"
proof (intro conjI impI)
  assume i: "fst (parseImports h c s) = Inr ims"
  show "fst (parseCode (CodeParser_constructor h) c s) = Inr \<lparr>imports = ims, types = [t0, t1]\<rparr>"
    by (simp add: parseCode_fst i assms(1))
next
  assume r: "fst (parseCode (CodeParser_constructor h) c s) = Inr pf"
  then have ts: "types pf = [t0, t1]"
    by (auto simp: parseCode_fst assms(1) split: sum.splits)
  then show "types pf = [t0, t1]" .
  from ts assms(2) show "type (types pf ! 0) = Class" by simp
  from ts assms(3) show "type (types pf ! 1) = Interface" by simp
qed

theorem parseCode_preserves_type_order_witness:
  "fst (parseCode (CodeParser_constructor
     (stubHandler (\<lambda>c. Inr [])
                  (\<lambda>c. Inr [plainType Class ''Shape'' [], plainType Interface ''Drawable'' []])
        :: (nat, string) LanguageHandler)) ''two types'' 0) =
     Inr \<lparr>imports = [],
          types = [plainType Class ''Shape'' [], plainType Interface ''Drawable'' []]\<rparr>"
proof -
  let ?h = "stubHandler (\<lambda>c. Inr [])
              (\<lambda>c. Inr [plainType Class ''Shape'' [], plainType Interface ''Drawable'' []])
              :: (nat, string) LanguageHandler"
  have t: "\<And>s'. fst (parseTypes ?h ''two types'' s') =
             Inr [plainType Class ''Shape'' [], plainType Interface ''Drawable'' []]"
    by (simp add: stubHandler_def)
  have k0: "type (plainType Class ''Shape'' []) = Class"
    by (simp add: plainType_def)
  have k1: "type (plainType Interface ''Drawable'' []) = Interface"
    by (simp add: plainType_def)
  have i: "fst (parseImports ?h ''two types'' 0) = Inr []"
    by (simp add: stubHandler_def)
  from parseCode_preserves_type_order [OF t k0 k1, of 0 _ "[]"] i show ?thesis
    by blast
qed

text \<open>
  C5. \<open>parseCode\<close> validates nothing. For a handler that answers the text with the
  types \<open>ts\<close>, every record \<open>parseCode\<close> returns carries \<open>ts\<close> itself: an enum without
  super classes in \<open>ts\<close> is an enum without super classes at the same index of the
  result, and the result is kind consistent exactly where \<open>ts\<close> is, so nothing is
  repaired; and the record is returned whenever \<open>parseImports\<close> returns, whatever \<open>ts\<close>
  holds, so nothing is rejected.
\<close>

theorem parseCode_no_validation:
  assumes "\<And>s'. fst (parseTypes h c s') = Inr ts"
  shows "(fst (parseCode (CodeParser_constructor h) c s) = Inr pf \<longrightarrow>
            types pf = ts \<and>
            (\<forall>i < length ts. type (ts ! i) = Enum \<and> superClasses (ts ! i) = [] \<longrightarrow>
               type (types pf ! i) = Enum \<and> superClasses (types pf ! i) = []) \<and>
            map kindConsistent (types pf) = map kindConsistent ts) \<and>
         (fst (parseImports h c s) = Inr ims \<longrightarrow>
            fst (parseCode (CodeParser_constructor h) c s) = Inr \<lparr>imports = ims, types = ts\<rparr>)"
proof (intro conjI impI)
  assume i: "fst (parseImports h c s) = Inr ims"
  show "fst (parseCode (CodeParser_constructor h) c s) = Inr \<lparr>imports = ims, types = ts\<rparr>"
    by (simp add: parseCode_fst i assms)
next
  assume r: "fst (parseCode (CodeParser_constructor h) c s) = Inr pf"
  then have ts: "types pf = ts"
    by (auto simp: parseCode_fst assms split: sum.splits)
  then show "types pf = ts" .
  from ts show "\<forall>i < length ts. type (ts ! i) = Enum \<and> superClasses (ts ! i) = [] \<longrightarrow>
                  type (types pf ! i) = Enum \<and> superClasses (types pf ! i) = []"
    by simp
  from ts show "map kindConsistent (types pf) = map kindConsistent ts" by simp
qed

theorem parseCode_no_validation_witness:
  "fst (parseCode (CodeParser_constructor
     (stubHandler (\<lambda>c. Inr []) (\<lambda>c. Inr [plainType Enum ''Colour'' []])
        :: (nat, string) LanguageHandler)) ''enum'' 0) =
     Inr \<lparr>imports = [], types = [plainType Enum ''Colour'' []]\<rparr> \<and>
   kindConsistent (plainType Enum ''Colour'' []) \<and>
   fst (parseCode (CodeParser_constructor
     (stubHandler (\<lambda>c. Inr []) (\<lambda>c. Inr [plainType Enum ''Colour'' [plainType Class ''Base'' []]])
        :: (nat, string) LanguageHandler)) ''enum'' 0) =
     Inr \<lparr>imports = [], types = [plainType Enum ''Colour'' [plainType Class ''Base'' []]]\<rparr> \<and>
   \<not> kindConsistent (plainType Enum ''Colour'' [plainType Class ''Base'' []])"
proof -
  let ?good = "stubHandler (\<lambda>c. Inr []) (\<lambda>c. Inr [plainType Enum ''Colour'' []])
                 :: (nat, string) LanguageHandler"
  let ?bad = "stubHandler (\<lambda>c. Inr [])
                (\<lambda>c. Inr [plainType Enum ''Colour'' [plainType Class ''Base'' []]])
                :: (nat, string) LanguageHandler"
  have tg: "\<And>s'. fst (parseTypes ?good ''enum'' s') = Inr [plainType Enum ''Colour'' []]"
    by (simp add: stubHandler_def)
  have tb: "\<And>s'. fst (parseTypes ?bad ''enum'' s') =
              Inr [plainType Enum ''Colour'' [plainType Class ''Base'' []]]"
    by (simp add: stubHandler_def)
  have ig: "fst (parseImports ?good ''enum'' 0) = Inr []"
    by (simp add: stubHandler_def)
  have ib: "fst (parseImports ?bad ''enum'' 0) = Inr []"
    by (simp add: stubHandler_def)
  have kg: "kindConsistent (plainType Enum ''Colour'' [])"
    by (simp add: kindConsistent_def plainType_def)
  have kb: "\<not> kindConsistent (plainType Enum ''Colour'' [plainType Class ''Base'' []])"
    by (simp add: kindConsistent_def plainType_def)
  from parseCode_no_validation [OF tg, of 0 _ "[]"] ig
  have "fst (parseCode (CodeParser_constructor ?good) ''enum'' 0) =
          Inr \<lparr>imports = [], types = [plainType Enum ''Colour'' []]\<rparr>"
    by blast
  moreover from parseCode_no_validation [OF tb, of 0 _ "[]"] ib
  have "fst (parseCode (CodeParser_constructor ?bad) ''enum'' 0) =
          Inr \<lparr>imports = [], types = [plainType Enum ''Colour'' [plainType Class ''Base'' []]]\<rparr>"
    by blast
  ultimately show ?thesis using kg kb by simp
qed

section \<open>Order of the calls and errors\<close>

text \<open>
  C2. Whatever the text, \<open>parseCode\<close> calls \<open>parseImports\<close> first and \<open>parseTypes\<close>
  second: the spy's log is \<open>parseImports\<close> alone when \<open>parseImports\<close> throws, and
  \<open>parseImports\<close> followed by \<open>parseTypes\<close> when it returns, \<open>parseTypes\<close> then
  running in the state \<open>parseImports\<close> left. When \<open>parseImports\<close> throws \<open>e\<close>,
  \<open>parseCode\<close> throws that same \<open>e\<close> and \<open>parseTypes\<close> is not called: the spy has
  logged the one call, and putting any other function in the place of \<open>parseTypes\<close>
  changes neither the outcome nor the state the call ends in.
\<close>

theorem parseCode_imports_first:
  "spiedCalls h c s =
     (if isl (fst (parseImports h c s))
      then [ParseImportsCall c]
      else [ParseImportsCall c, ParseTypesCall c]) \<and>
   (fst (parseImports h c s) = Inr ims \<longrightarrow>
      spiedCalls h c s = [ParseImportsCall c, ParseTypesCall c] \<and>
      snd (snd (parseCode (CodeParser_constructor h) c s)) =
        snd (parseTypes h c (snd (parseImports h c s)))) \<and>
   (fst (parseImports h c s) = Inl e \<longrightarrow>
      fst (parseCode (CodeParser_constructor h) c s) = Inl e \<and>
      spiedCalls h c s = [ParseImportsCall c] \<and>
      (\<forall>f. fst (parseCode (CodeParser_constructor (h\<lparr>parseTypes := f\<rparr>)) c s) = Inl e \<and>
           snd (snd (parseCode (CodeParser_constructor (h\<lparr>parseTypes := f\<rparr>)) c s)) =
             snd (parseImports h c s)))"
  by (simp add: spiedCalls_eq parseCode_fst parseCode_state)

theorem parseCode_imports_first_witness:
  "fst (parseCode (CodeParser_constructor
     (stubHandler (\<lambda>c. Inl ''bad import'') (\<lambda>c. Inl ''bad type'')
        :: (nat, string) LanguageHandler)) ''X'' 0) = Inl ''bad import'' \<and>
   spiedCalls (stubHandler (\<lambda>c. Inl ''bad import'') (\<lambda>c. Inl ''bad type'')
        :: (nat, string) LanguageHandler) ''X'' 0 = [ParseImportsCall ''X''] \<and>
   spiedCalls (stubHandler (\<lambda>c. Inr [\<lparr>value = c\<rparr>]) (\<lambda>c. Inl ''bad type'')
        :: (nat, string) LanguageHandler) ''X'' 0 =
     [ParseImportsCall ''X'', ParseTypesCall ''X''] \<and>
   snd (snd (parseCode (CodeParser_constructor
     (stubHandler (\<lambda>c. Inr [\<lparr>value = c\<rparr>]) (\<lambda>c. Inl ''bad type'')
        :: (nat, string) LanguageHandler)) ''X'' 0)) = Suc (Suc 0)"
proof -
  let ?h = "stubHandler (\<lambda>c. Inl ''bad import'') (\<lambda>c. Inl ''bad type'')
              :: (nat, string) LanguageHandler"
  let ?g = "stubHandler (\<lambda>c. Inr [\<lparr>value = c\<rparr>]) (\<lambda>c. Inl ''bad type'')
              :: (nat, string) LanguageHandler"
  have i: "fst (parseImports ?h ''X'' 0) = Inl ''bad import''"
    by (simp add: stubHandler_def)
  have j: "fst (parseImports ?g ''X'' 0) = Inr [\<lparr>value = ''X''\<rparr>]"
    by (simp add: stubHandler_def)
  have k: "snd (parseTypes ?g ''X'' (snd (parseImports ?g ''X'' 0))) = Suc (Suc 0)"
    by (simp add: stubHandler_def)
  from parseCode_imports_first [of ?h "''X''" 0 _ "''bad import''"] i
  have "fst (parseCode (CodeParser_constructor ?h) ''X'' 0) = Inl ''bad import'' \<and>
        spiedCalls ?h ''X'' 0 = [ParseImportsCall ''X'']"
    by blast
  moreover from parseCode_imports_first [of ?g "''X''" 0 "[\<lparr>value = ''X''\<rparr>]"] j
  have "spiedCalls ?g ''X'' 0 = [ParseImportsCall ''X'', ParseTypesCall ''X''] \<and>
        snd (snd (parseCode (CodeParser_constructor ?g) ''X'' 0)) =
          snd (parseTypes ?g ''X'' (snd (parseImports ?g ''X'' 0)))"
    by blast
  ultimately show ?thesis using k by simp
qed

text \<open>
  C3. \<open>parseCode\<close> throws \<open>e\<close> exactly when \<open>parseImports\<close> throws \<open>e\<close>, or \<open>parseImports\<close>
  returns and \<open>parseTypes\<close>, called in the state \<open>parseImports\<close> left, throws \<open>e\<close>: the
  thrown value is the handler's own. It returns a record exactly when both calls
  return, and the record then holds both answers: there is no partial result.
\<close>

theorem parseCode_throws_iff:
  "(fst (parseCode p c s) = Inl e \<longleftrightarrow>
      fst (parseImports (languageHandler p) c s) = Inl e \<or>
      (\<not> isl (fst (parseImports (languageHandler p) c s)) \<and>
       fst (parseTypes (languageHandler p) c (snd (parseImports (languageHandler p) c s))) = Inl e)) \<and>
   (fst (parseCode p c s) = Inr pf \<longleftrightarrow>
      fst (parseImports (languageHandler p) c s) = Inr (imports pf) \<and>
      fst (parseTypes (languageHandler p) c (snd (parseImports (languageHandler p) c s))) =
        Inr (types pf))"
proof (cases p c s rule: parseCode_cases)
  case (imports_throw e' sa)
  from parseCode_imports_throw [OF this] imports_throw show ?thesis by simp
next
  case (types_throw ims sa e' sb)
  from parseCode_types_throw [OF this] types_throw show ?thesis by auto
next
  case (both_return ims sa ts sb)
  have "pf = \<lparr>imports = ims, types = ts\<rparr> \<longleftrightarrow> ims = imports pf \<and> ts = types pf"
    by (cases pf) auto
  with parseCode_both_return [OF both_return] both_return show ?thesis by auto
qed

theorem parseCode_throws_iff_witness:
  "fst (parseCode (CodeParser_constructor
     (stubHandler (\<lambda>c. Inr [\<lparr>value = ''a.b.C''\<rparr>]) (\<lambda>c. Inl ''bad type'')
        :: (nat, string) LanguageHandler)) ''X'' 0) = Inl ''bad type'' \<and>
   fst (parseCode (CodeParser_constructor
     (stubHandler (\<lambda>c. Inr [\<lparr>value = ''a.b.C''\<rparr>]) (\<lambda>c. Inr [])
        :: (nat, string) LanguageHandler)) ''X'' 0) \<noteq> Inl ''bad type''"
proof -
  let ?h = "stubHandler (\<lambda>c. Inr [\<lparr>value = ''a.b.C''\<rparr>]) (\<lambda>c. Inl ''bad type'')
              :: (nat, string) LanguageHandler"
  let ?g = "stubHandler (\<lambda>c. Inr [\<lparr>value = ''a.b.C''\<rparr>]) (\<lambda>c. Inr [])
              :: (nat, string) LanguageHandler"
  have "fst (parseCode (CodeParser_constructor ?h) ''X'' 0) = Inl ''bad type''"
    using parseCode_throws_iff [of "CodeParser_constructor ?h" "''X''" 0 "''bad type''"]
    by (simp add: stubHandler_def)
  moreover have "fst (parseCode (CodeParser_constructor ?g) ''X'' 0) \<noteq> Inl ''bad type''"
    using parseCode_throws_iff [of "CodeParser_constructor ?g" "''X''" 0 "''bad type''"]
    by (simp add: stubHandler_def)
  ultimately show ?thesis by simp
qed

text \<open>
  C10. When both calls return, one \<open>parseCode\<close> on the text \<open>c\<close> makes exactly two
  calls to the handler: \<open>parseImports\<close> once, then \<open>parseTypes\<close> once, each with \<open>c\<close>
  itself as its argument.
\<close>

theorem parseCode_calls_each_once:
  assumes "parseImports h c s = (Inr ims, sa)"
    and "parseTypes h c sa = (Inr ts, sb)"
  shows "spiedCalls h c s = [ParseImportsCall c, ParseTypesCall c] \<and>
         count_list (spiedCalls h c s) (ParseImportsCall c) = 1 \<and>
         count_list (spiedCalls h c s) (ParseTypesCall c) = 1 \<and>
         length (spiedCalls h c s) = 2"
  using assms(1) by (simp add: spiedCalls_eq)

theorem parseCode_calls_each_once_witness:
  "spiedCalls (stubHandler (\<lambda>c. Inr [\<lparr>value = c\<rparr>]) (\<lambda>c. Inr [])
        :: (nat, string) LanguageHandler) ''import a.b.C;'' 0 =
     [ParseImportsCall ''import a.b.C;'', ParseTypesCall ''import a.b.C;'']"
proof -
  let ?h = "stubHandler (\<lambda>c. Inr [\<lparr>value = c\<rparr>]) (\<lambda>c. Inr [])
              :: (nat, string) LanguageHandler"
  have i: "parseImports ?h ''import a.b.C;'' 0 = (Inr [\<lparr>value = ''import a.b.C;''\<rparr>], Suc 0)"
    by (simp add: stubHandler_def)
  have t: "parseTypes ?h ''import a.b.C;'' (Suc 0) = (Inr [], Suc (Suc 0))"
    by (simp add: stubHandler_def)
  from parseCode_calls_each_once [OF i t] show ?thesis by blast
qed

section \<open>Purity and the parser object\<close>

text \<open>
  C4. For a deterministic handler \<open>h\<close>, two parser objects bound to \<open>h\<close> give equal
  outcomes for the same text, in whatever states the calls start; so does a second
  call on the same object right after the first, which shows that nothing was cached.
  The facade has no effect of its own: the object comes back as it was, and when the
  handler is effect free the state after the call is the state before it.
\<close>

theorem parseCode_deterministic:
  assumes "deterministic h"
    and "languageHandler p = h" and "languageHandler p' = h"
  shows "fst (parseCode p c s) = fst (parseCode p' c s') \<and>
         fst (parseCode (fst (snd (parseCode p c s))) c (snd (snd (parseCode p c s)))) =
           fst (parseCode p c s) \<and>
         fst (snd (parseCode p c s)) = p \<and>
         (effectFree h \<longrightarrow> snd (parseCode p c s) = (p, s))"
proof -
  from assms(1) have i: "\<And>s s'. fst (parseImports h c s) = fst (parseImports h c s')"
    and t: "\<And>s s'. fst (parseTypes h c s) = fst (parseTypes h c s')"
    by (simp_all add: deterministic_def)
  have any: "fst (parseCode q c u) = fst (parseCode q' c u')"
    if "languageHandler q = h" and "languageHandler q' = h" for q q' u u'
  proof -
    have "fst (parseTypes h c (snd (parseImports h c u))) =
          fst (parseTypes h c (snd (parseImports h c u')))"
      by (rule t)
    with i [of u u'] that show ?thesis by (simp add: parseCode_fst split: sum.splits)
  qed
  have this_same: "fst (snd (parseCode p c s)) = p"
    by (rule parseCode_this_unchanged)
  have first: "fst (parseCode p c s) = fst (parseCode p' c s')"
    using assms(2,3) by (rule any)
  have again: "fst (parseCode (fst (snd (parseCode p c s))) c (snd (snd (parseCode p c s)))) =
                 fst (parseCode p c s)"
    unfolding this_same using assms(2) assms(2) by (rule any)
  have frame: "snd (parseCode p c s) = (p, s)" if "effectFree h"
  proof -
    from that have "\<And>u. snd (parseImports h c u) = u" and "\<And>u. snd (parseTypes h c u) = u"
      by (simp_all add: effectFree_def)
    then have "snd (snd (parseCode p c s)) = s"
      by (simp add: parseCode_state assms(2) split: sum.splits)
    with this_same show ?thesis by (simp add: prod_eq_iff)
  qed
  from first again this_same frame show ?thesis by blast
qed

theorem parseCode_deterministic_witness:
  "deterministic (pureStubHandler (\<lambda>c. Inr [\<lparr>value = c\<rparr>]) (\<lambda>c. Inr [])
     :: (unit, string) LanguageHandler) \<and>
   effectFree (pureStubHandler (\<lambda>c. Inr [\<lparr>value = c\<rparr>]) (\<lambda>c. Inr [])
     :: (unit, string) LanguageHandler) \<and>
   deterministic (stubHandler (\<lambda>c. Inr [\<lparr>value = c\<rparr>]) (\<lambda>c. Inr [])
     :: (nat, string) LanguageHandler) \<and>
   fst (parseCode (CodeParser_constructor (stubHandler (\<lambda>c. Inr [\<lparr>value = c\<rparr>]) (\<lambda>c. Inr [])
     :: (nat, string) LanguageHandler)) ''X'' 0) =
   fst (parseCode (CodeParser_constructor (stubHandler (\<lambda>c. Inr [\<lparr>value = c\<rparr>]) (\<lambda>c. Inr [])
     :: (nat, string) LanguageHandler)) ''X'' 5) \<and>
   snd (parseCode (CodeParser_constructor (pureStubHandler (\<lambda>c. Inr [\<lparr>value = c\<rparr>]) (\<lambda>c. Inr [])
     :: (unit, string) LanguageHandler)) ''X'' ()) =
   (CodeParser_constructor (pureStubHandler (\<lambda>c. Inr [\<lparr>value = c\<rparr>]) (\<lambda>c. Inr [])), ())"
proof -
  let ?h = "stubHandler (\<lambda>c. Inr [\<lparr>value = c\<rparr>]) (\<lambda>c. Inr []) :: (nat, string) LanguageHandler"
  let ?g = "pureStubHandler (\<lambda>c. Inr [\<lparr>value = c\<rparr>]) (\<lambda>c. Inr [])
              :: (unit, string) LanguageHandler"
  have dh: "deterministic ?h"
    by (simp add: deterministic_def stubHandler_def)
  have dg: "deterministic ?g"
    by (simp add: deterministic_def pureStubHandler_def)
  have eg: "effectFree ?g"
    by (simp add: effectFree_def pureStubHandler_def)
  have lh: "languageHandler (CodeParser_constructor ?h) = ?h"
    and lg: "languageHandler (CodeParser_constructor ?g) = ?g"
    by simp_all
  from parseCode_deterministic [OF dh lh lh, of "''X''" 0 5]
  have "fst (parseCode (CodeParser_constructor ?h) ''X'' 0) =
        fst (parseCode (CodeParser_constructor ?h) ''X'' 5)"
    by blast
  moreover from parseCode_deterministic [OF dg lg lg, of "''X''" "()" "()"] eg
  have "snd (parseCode (CodeParser_constructor ?g) ''X'' ()) = (CodeParser_constructor ?g, ())"
    by blast
  ultimately show ?thesis using dh dg eg by simp
qed

text \<open>
  C9. A parser object is its one handler: the constructor stores the handler it is
  given, and an object is determined by the handler it holds. A call to \<open>parseCode\<close>
  hands the object back unchanged, and so does any run of calls on it; in such a run
  every call reaches the handler given at construction, whose spy logs one
  \<open>parseImports\<close> per text, in the order of the texts.
\<close>

theorem parseCode_handler_fixed:
  "languageHandler (CodeParser_constructor h) = h \<and>
   p = CodeParser_constructor (languageHandler p) \<and>
   fst (snd (parseCode p c s)) = p \<and>
   fst (snd (parseCodeAll p cs s)) = p \<and>
   languageHandler (fst (snd (parseCodeAll (CodeParser_constructor h) cs s))) = h \<and>
   filter isParseImportsCall
     (snd (snd (snd (parseCodeAll (CodeParser_constructor (spy h)) cs (s, []))))) =
     map ParseImportsCall cs"
proof -
  have "p = CodeParser_constructor (languageHandler p)"
    by (cases p) (simp add: CodeParser_constructor_def)
  moreover have "languageHandler (fst (snd (parseCodeAll (CodeParser_constructor h) cs s))) = h"
    by (simp add: parseCodeAll_this_unchanged)
  moreover have "filter isParseImportsCall
     (snd (snd (snd (parseCodeAll (CodeParser_constructor (spy h)) cs (s, []))))) =
     map ParseImportsCall cs"
    by (simp add: parseCodeAll_spy_calls)
  ultimately show ?thesis
    by (simp add: parseCode_this_unchanged parseCodeAll_this_unchanged)
qed

theorem parseCode_handler_fixed_witness:
  "snd (snd (snd (parseCodeAll (CodeParser_constructor (spy
     (stubHandler (\<lambda>c. if c = ''bad'' then Inl ''no'' else Inr []) (\<lambda>c. Inr [])
        :: (nat, string) LanguageHandler))) [''a'', ''bad'', ''b''] (0, [])))) =
     [ParseImportsCall ''a'', ParseTypesCall ''a'', ParseImportsCall ''bad'',
      ParseImportsCall ''b'', ParseTypesCall ''b''] \<and>
   filter isParseImportsCall
     [ParseImportsCall ''a'', ParseTypesCall ''a'', ParseImportsCall ''bad'',
      ParseImportsCall ''b'', ParseTypesCall ''b''] =
     map ParseImportsCall [''a'', ''bad'', ''b'']"
proof -
  let ?h = "stubHandler (\<lambda>c. if c = ''bad'' then Inl ''no'' else Inr []) (\<lambda>c. Inr [])
              :: (nat, string) LanguageHandler"
  have run: "snd (snd (snd (parseCodeAll (CodeParser_constructor (spy ?h))
               [''a'', ''bad'', ''b''] (0, [])))) =
     [ParseImportsCall ''a'', ParseTypesCall ''a'', ParseImportsCall ''bad'',
      ParseImportsCall ''b'', ParseTypesCall ''b'']"
    by (simp add: parseCode_def spy_def stubHandler_def)
  from parseCode_handler_fixed
         [of ?h "CodeParser_constructor ?h" "''a''" 0 "[''a'', ''bad'', ''b'']"]
  have "filter isParseImportsCall
     (snd (snd (snd (parseCodeAll (CodeParser_constructor (spy ?h))
        [''a'', ''bad'', ''b''] (0, []))))) =
     map ParseImportsCall [''a'', ''bad'', ''b'']"
    by blast
  with run show ?thesis by simp
qed

end
